theory Spec2Isabelle
  imports Main "HOL-Library.Word"
begin

unbundle bit_operations_syntax

section \<open>Byte strings and Python's \<open>bytes\<close> constructors\<close>

type_synonym byte = "8 word"
type_synonym bytes = "byte list"

datatype error =
  ValueError | AuthenticationError | AssertionError | EncodingError | ImportError

text \<open>\<open>bytes(n)\<close>: \<open>n\<close> zero bytes; a negative count raises \<open>ValueError\<close>.\<close>

definition zero_bytes :: "int \<Rightarrow> error + bytes" where
  "zero_bytes n = (if n < 0 then Inl ValueError else Inr (replicate (nat n) 0))"

text \<open>\<open>bytes([i, j, ...])\<close>: every integer must be in \<open>range(256)\<close>, else \<open>ValueError\<close>.\<close>

definition bytes_of_ints :: "int list \<Rightarrow> error + bytes" where
  "bytes_of_ints xs =
     (if list_all (\<lambda>x. 0 \<le> x \<and> x < 256) xs then Inr (map word_of_int xs)
      else Inl ValueError)"

text \<open>\<open>bytes(a ^ b for a, b in zip(xs, ys))\<close>: \<open>zip\<close> stops at the shorter argument.\<close>

definition xor_zip :: "bytes \<Rightarrow> bytes \<Rightarrow> bytes" where
  "xor_zip xs ys = map (\<lambda>(a, b). a XOR b) (zip xs ys)"

section \<open>Nonce and additional data of \<open>scripts/verify_chacha_encryption.py\<close>\<close>

text \<open>Line 27: \<open>padded_seq = bytes(12 - len(seq_num)) + seq_num\<close>.\<close>

definition padded_seq :: "bytes \<Rightarrow> error + bytes" where
  "padded_seq seq_num =
     (case zero_bytes (12 - int (length seq_num)) of
        Inl e \<Rightarrow> Inl e
      | Inr z \<Rightarrow> Inr (z @ seq_num))"

text \<open>Line 28: \<open>nonce = bytes(a ^ b for a, b in zip(client_iv, padded_seq))\<close>.\<close>

definition nonce :: "bytes \<Rightarrow> bytes \<Rightarrow> error + bytes" where
  "nonce client_iv seq_num =
     (case padded_seq seq_num of
        Inl e \<Rightarrow> Inl e
      | Inr p \<Rightarrow> Inr (xor_zip client_iv p))"

text \<open>
  Lines 36-37: \<open>aad = seq_num + bytes([content_type, version[0], version[1],
  plaintext_length >> 8, plaintext_length & 0xff])\<close>, with Python's unbounded integers.
\<close>

definition aad :: "bytes \<Rightarrow> int \<Rightarrow> int \<times> int \<Rightarrow> int \<Rightarrow> error + bytes" where
  "aad seq_num content_type version plaintext_length =
     (case bytes_of_ints [content_type, fst version, snd version,
                          drop_bit 8 plaintext_length, plaintext_length AND 0xff] of
        Inl e \<Rightarrow> Inl e
      | Inr b \<Rightarrow> Inr (seq_num @ b))"

text \<open>Lines 69-70: the alternative additional data without the sequence number.\<close>

definition alt_aad :: "int \<Rightarrow> int \<times> int \<Rightarrow> int \<Rightarrow> error + bytes" where
  "alt_aad content_type version plaintext_length =
     bytes_of_ints [content_type, fst version, snd version,
                    drop_bit 8 plaintext_length, plaintext_length AND 0xff]"


section \<open>ChaCha20-Poly1305 (\<open>tlslite.utils.python_chacha20_poly1305\<close>)\<close>

text \<open>
  The script imports \<open>CHACHA20_POLY1305\<close> from the bundled Python library; its code is
  not among the sources. The definitions of this section are modelled from the spec, which
  names the algorithm (ChaCha20-Poly1305 with a 16-byte tag appended to the ciphertext,
  section 4.3) and leaves its arithmetic to the algorithm's standard definition (RFC 7539):
  32-bit words are Python integers masked with \<open>0xffffffff\<close>, the accumulator of
  Poly1305 is an unbounded integer reduced modulo \<open>2^130 - 5\<close>.
\<close>

text \<open>Modelled from the spec: little-endian decoding of a byte string to an integer
  (helper of the absent Poly1305 and ChaCha classes).\<close>

fun le_bytes_to_num :: "bytes \<Rightarrow> int" where
  "le_bytes_to_num [] = 0"
| "le_bytes_to_num (b # bs) = uint b + 256 * le_bytes_to_num bs"

text \<open>Modelled from the spec: the \<open>k\<close> low-order bytes of an integer, little-endian
  (helper of the absent Poly1305 and ChaCha classes).\<close>

fun num_to_le_bytes :: "nat \<Rightarrow> int \<Rightarrow> bytes" where
  "num_to_le_bytes 0 n = []"
| "num_to_le_bytes (Suc k) n = word_of_int (n AND 0xff) # num_to_le_bytes k (drop_bit 8 n)"

text \<open>Modelled from the spec: the four constant words of the ChaCha state (absent class
  \<open>ChaCha\<close>).\<close>

definition constants :: "int list" where
  "constants = [0x61707865, 0x3320646e, 0x79622d32, 0x6b206574]"

text \<open>Modelled from the spec: rotation of a 32-bit word to the left (absent class
  \<open>ChaCha\<close>).\<close>

definition rotl32 :: "int \<Rightarrow> nat \<Rightarrow> int" where
  "rotl32 v c = (push_bit c v AND 0xffffffff) OR drop_bit (32 - c) v"

text \<open>Modelled from the spec: the ChaCha quarter round on the state words at indices
  \<open>a\<close>, \<open>b\<close>, \<open>c\<close>, \<open>d\<close> (absent class \<open>ChaCha\<close>).\<close>

definition quarter_round :: "int list \<Rightarrow> nat \<Rightarrow> nat \<Rightarrow> nat \<Rightarrow> nat \<Rightarrow> int list" where
  "quarter_round x a b c d =
     (let xa = x ! a; xb = x ! b; xc = x ! c; xd = x ! d;
          xa = (xa + xb) AND 0xffffffff;
          xd = rotl32 (xd XOR xa) 16;
          xc = (xc + xd) AND 0xffffffff;
          xb = rotl32 (xb XOR xc) 12;
          xa = (xa + xb) AND 0xffffffff;
          xd = rotl32 (xd XOR xa) 8;
          xc = (xc + xd) AND 0xffffffff;
          xb = rotl32 (xb XOR xc) 7
      in x[a := xa, b := xb, c := xc, d := xd])"

text \<open>Modelled from the spec: a column round followed by a diagonal round (absent class
  \<open>ChaCha\<close>).\<close>

definition double_round :: "int list \<Rightarrow> int list" where
  "double_round x =
     quarter_round (quarter_round (quarter_round (quarter_round
    (quarter_round (quarter_round (quarter_round (quarter_round x
       0 4 8 12) 1 5 9 13) 2 6 10 14) 3 7 11 15)
       0 5 10 15) 1 6 11 12) 2 7 8 13) 3 4 9 14"

text \<open>Modelled from the spec: the loop that applies the double round \<open>n\<close> times (absent
  class \<open>ChaCha\<close>).\<close>

fun rounds_loop :: "nat \<Rightarrow> int list \<Rightarrow> int list" where
  "rounds_loop 0 x = x"
| "rounds_loop (Suc n) x = rounds_loop n (double_round x)"

text \<open>Modelled from the spec: the ChaCha block function; the state is the constants, the
  key words, the block counter and the nonce words, and the output adds the initial state
  to the permuted one word by word (absent class \<open>ChaCha\<close>).\<close>

definition chacha_block :: "int list \<Rightarrow> int \<Rightarrow> int list \<Rightarrow> nat \<Rightarrow> int list" where
  "chacha_block key counter nonce_words rounds =
     (let state = constants @ key @ [counter] @ nonce_words;
          working_state = rounds_loop (rounds div 2) state
      in map (\<lambda>(st, wrkSt). (st + wrkSt) AND 0xffffffff) (zip state working_state))"

text \<open>Modelled from the spec: a byte string as little-endian 32-bit words; trailing bytes
  that do not fill a word are dropped (absent class \<open>ChaCha\<close>).\<close>

fun bytearray_to_words :: "bytes \<Rightarrow> int list" where
  "bytearray_to_words (a # b # c # d # rest) =
     le_bytes_to_num [a, b, c, d] # bytearray_to_words rest"
| "bytearray_to_words _ = []"

text \<open>Modelled from the spec: the state words as a little-endian byte stream (absent
  class \<open>ChaCha\<close>).\<close>

definition word_to_bytearray :: "int list \<Rightarrow> bytes" where
  "word_to_bytearray state = concat (map (num_to_le_bytes 4) state)"

text \<open>Modelled from the spec: the encryption loop of ChaCha20, one 64-byte key-stream
  block per 64 bytes of input, the counter increased by one per block (absent class
  \<open>ChaCha\<close>).\<close>

function encrypt_loop :: "int list \<Rightarrow> int \<Rightarrow> int list \<Rightarrow> bytes \<Rightarrow> bytes" where
  "encrypt_loop key counter nonce_words [] = []"
| "encrypt_loop key counter nonce_words (p # ps) =
     xor_zip (word_to_bytearray (chacha_block key counter nonce_words 20)) (take 64 (p # ps))
       @ encrypt_loop key (counter + 1) nonce_words (drop 64 (p # ps))"
  by pat_completeness auto
termination
  by (relation "measure (\<lambda>(key, counter, nonce_words, data). length data)") auto

text \<open>Modelled from the spec: ChaCha20 encryption (and decryption) under a 32-byte key and
  a 12-byte nonce, starting at the given block counter (absent class \<open>ChaCha\<close>). The
  sizes of key and nonce are checked by \<open>seal\<close> and \<open>open\<close> before it is called.\<close>

definition chacha_encrypt :: "bytes \<Rightarrow> bytes \<Rightarrow> int \<Rightarrow> bytes \<Rightarrow> bytes" where
  "chacha_encrypt key nonce_bytes counter data =
     encrypt_loop (bytearray_to_words key) counter (bytearray_to_words nonce_bytes) data"

text \<open>Modelled from the spec: the prime \<open>2^130 - 5\<close> of Poly1305 (absent class
  \<open>Poly1305\<close>).\<close>

definition P :: int where
  "P = 0x3fffffffffffffffffffffffffffffffb"

text \<open>Modelled from the spec: the accumulation loop of Poly1305 over 16-byte blocks, each
  extended by the byte 1 (absent class \<open>Poly1305\<close>).\<close>

function tag_loop :: "int \<Rightarrow> int \<Rightarrow> bytes \<Rightarrow> int" where
  "tag_loop r acc [] = acc"
| "tag_loop r acc (d # ds) =
     tag_loop r ((r * (acc + le_bytes_to_num (take 16 (d # ds) @ [1]))) mod P)
       (drop 16 (d # ds))"
  by pat_completeness auto
termination
  by (relation "measure (\<lambda>(r, acc, data). length data)") auto

text \<open>Modelled from the spec: the Poly1305 tag of a message under a 32-byte one-time key:
  \<open>r\<close> is the clamped first half of the key, \<open>s\<close> the second half; the tag is the low
  16 bytes of the accumulator plus \<open>s\<close> (absent class \<open>Poly1305\<close>).\<close>

definition create_tag :: "bytes \<Rightarrow> bytes \<Rightarrow> bytes" where
  "create_tag key data =
     (let r = le_bytes_to_num (take 16 key) AND 0x0ffffffc0ffffffc0ffffffc0fffffff;
          s = le_bytes_to_num (take 16 (drop 16 key));
          acc = tag_loop r 0 data
      in num_to_le_bytes 16 (acc + s))"

text \<open>Modelled from the spec: the one-time Poly1305 key, the first 32 key-stream bytes at
  block counter 0 (absent class \<open>CHACHA20_POLY1305\<close>).\<close>

definition poly1305_key_gen :: "bytes \<Rightarrow> bytes \<Rightarrow> bytes" where
  "poly1305_key_gen key nonce_bytes = chacha_encrypt key nonce_bytes 0 (replicate 32 0)"

text \<open>Modelled from the spec: the zero padding to a multiple of 16 bytes (absent class
  \<open>CHACHA20_POLY1305\<close>).\<close>

definition pad16 :: "bytes \<Rightarrow> bytes" where
  "pad16 data =
     (if length data mod 16 = 0 then [] else replicate (16 - length data mod 16) 0)"

text \<open>Modelled from the spec: the authenticated message: padded additional data, padded
  ciphertext and their two lengths as 8-byte little-endian integers (absent class
  \<open>CHACHA20_POLY1305\<close>).\<close>

definition mac_data :: "bytes \<Rightarrow> bytes \<Rightarrow> bytes" where
  "mac_data data ciphertext =
     data @ pad16 data @ ciphertext @ pad16 ciphertext
       @ num_to_le_bytes 8 (int (length data)) @ num_to_le_bytes 8 (int (length ciphertext))"

text \<open>Modelled from the spec: \<open>CHACHA20_POLY1305(key, 'python').seal(nonce, plaintext,
  data)\<close>, absent from the sources: the encrypt-and-authenticate operation of section 4.3,
  whose output is the ciphertext with the 16-byte tag appended. A key that is not 32 bytes
  or a nonce that is not 12 bytes is a configuration error.\<close>

definition seal :: "bytes \<Rightarrow> bytes \<Rightarrow> bytes \<Rightarrow> bytes \<Rightarrow> error + bytes" where
  "seal key nonce_bytes plaintext_bytes data =
     (if length key \<noteq> 32 then Inl ValueError
      else if length nonce_bytes \<noteq> 12 then Inl ValueError
      else let otk = poly1305_key_gen key nonce_bytes;
               ciphertext = chacha_encrypt key nonce_bytes 1 plaintext_bytes;
               tag = create_tag otk (mac_data data ciphertext)
           in Inr (ciphertext @ tag))"

text \<open>Modelled from the spec: \<open>CHACHA20_POLY1305(key, 'python').open(nonce, ciphertext,
  data)\<close>, absent from the sources: the verify-and-decrypt operation of section 4.3, which
  fails with an authentication error if the ciphertext is shorter than the tag length or
  if the tag does not verify.\<close>

definition "open" :: "bytes \<Rightarrow> bytes \<Rightarrow> bytes \<Rightarrow> bytes \<Rightarrow> error + bytes" where
  "open key nonce_bytes ciphertext data =
     (if length key \<noteq> 32 then Inl ValueError
      else if length nonce_bytes \<noteq> 12 then Inl ValueError
      else if length ciphertext < 16 then Inl AuthenticationError
      else let expected_tag = drop (length ciphertext - 16) ciphertext;
               body = take (length ciphertext - 16) ciphertext;
               otk = poly1305_key_gen key nonce_bytes;
               tag = create_tag otk (mac_data data body)
           in if tag \<noteq> expected_tag then Inl AuthenticationError
              else Inr (chacha_encrypt key nonce_bytes 1 body))"

section \<open>Hash functions\<close>

text \<open>
  The PRF and the PSS encoder hash with SHA-256 and SHA-1. The scripts reach them through
  the bundled library and Python's \<open>hashlib\<close>, neither of which is among the sources; the
  spec names the algorithms only, so they are modelled after their standard definition
  (FIPS 180-4), on Python integers masked to 32 bits.
\<close>

text \<open>Modelled from the spec: big-endian decoding of a byte string, continuing from an
  accumulator (helper of the absent hash functions).\<close>

fun be_bytes_to_num :: "int \<Rightarrow> bytes \<Rightarrow> int" where
  "be_bytes_to_num acc [] = acc"
| "be_bytes_to_num acc (b # bs) = be_bytes_to_num (256 * acc + uint b) bs"

text \<open>Modelled from the spec: the \<open>k\<close> low-order bytes of an integer, big-endian (helper
  of the absent hash functions and of MGF1).\<close>

definition num_to_be_bytes :: "nat \<Rightarrow> int \<Rightarrow> bytes" where
  "num_to_be_bytes k n = rev (num_to_le_bytes k n)"

text \<open>Modelled from the spec: a byte string as big-endian 32-bit words (helper of the
  absent hash functions).\<close>

fun be_words :: "bytes \<Rightarrow> int list" where
  "be_words (a # b # c # d # rest) = be_bytes_to_num 0 [a, b, c, d] # be_words rest"
| "be_words _ = []"

text \<open>Modelled from the spec: the padding of SHA-1 and SHA-256: the byte \<open>0x80\<close>, zero
  bytes up to 56 modulo 64, and the bit length of the message as 8 big-endian bytes.\<close>

definition md_pad :: "bytes \<Rightarrow> bytes" where
  "md_pad msg =
     msg @ [0x80] @ replicate ((119 - length msg mod 64) mod 64) 0
       @ num_to_be_bytes 8 (8 * int (length msg))"

text \<open>Modelled from the spec: rotation of a 32-bit word to the right (SHA-256).\<close>

definition rotr32 :: "int \<Rightarrow> nat \<Rightarrow> int" where
  "rotr32 x n = drop_bit n x OR (push_bit (32 - n) x AND 0xffffffff)"

text \<open>Modelled from the spec: the function \<open>\<sigma>0\<close> of the SHA-256 message schedule.\<close>

definition ssig0 :: "int \<Rightarrow> int" where
  "ssig0 x = rotr32 x 7 XOR rotr32 x 18 XOR drop_bit 3 x"

text \<open>Modelled from the spec: the function \<open>\<sigma>1\<close> of the SHA-256 message schedule.\<close>

definition ssig1 :: "int \<Rightarrow> int" where
  "ssig1 x = rotr32 x 17 XOR rotr32 x 19 XOR drop_bit 10 x"

text \<open>Modelled from the spec: the function \<open>\<Sigma>0\<close> of the SHA-256 round.\<close>

definition bsig0 :: "int \<Rightarrow> int" where
  "bsig0 x = rotr32 x 2 XOR rotr32 x 13 XOR rotr32 x 22"

text \<open>Modelled from the spec: the function \<open>\<Sigma>1\<close> of the SHA-256 round.\<close>

definition bsig1 :: "int \<Rightarrow> int" where
  "bsig1 x = rotr32 x 6 XOR rotr32 x 11 XOR rotr32 x 25"

text \<open>Modelled from the spec: the choice function of SHA-1 and SHA-256; the complement of
  a 32-bit word is its XOR with \<open>0xffffffff\<close>.\<close>

definition ch :: "int \<Rightarrow> int \<Rightarrow> int \<Rightarrow> int" where
  "ch x y z = (x AND y) XOR ((x XOR 0xffffffff) AND z)"

text \<open>Modelled from the spec: the majority function of SHA-1 and SHA-256.\<close>

definition maj :: "int \<Rightarrow> int \<Rightarrow> int \<Rightarrow> int" where
  "maj x y z = (x AND y) XOR (x AND z) XOR (y AND z)"

text \<open>Modelled from the spec: the 64 round constants of SHA-256, eight per row.\<close>

definition sha256_k :: "int list" where
  "sha256_k =
       [0x428a2f98, 0x71374491, 0xb5c0fbcf, 0xe9b5dba5, 0x3956c25b, 0x59f111f1, 0x923f82a4, 0xab1c5ed5]
     @ [0xd807aa98, 0x12835b01, 0x243185be, 0x550c7dc3, 0x72be5d74, 0x80deb1fe, 0x9bdc06a7, 0xc19bf174]
     @ [0xe49b69c1, 0xefbe4786, 0x0fc19dc6, 0x240ca1cc, 0x2de92c6f, 0x4a7484aa, 0x5cb0a9dc, 0x76f988da]
     @ [0x983e5152, 0xa831c66d, 0xb00327c8, 0xbf597fc7, 0xc6e00bf3, 0xd5a79147, 0x06ca6351, 0x14292967]
     @ [0x27b70a85, 0x2e1b2138, 0x4d2c6dfc, 0x53380d13, 0x650a7354, 0x766a0abb, 0x81c2c92e, 0x92722c85]
     @ [0xa2bfe8a1, 0xa81a664b, 0xc24b8b70, 0xc76c51a3, 0xd192e819, 0xd6990624, 0xf40e3585, 0x106aa070]
     @ [0x19a4c116, 0x1e376c08, 0x2748774c, 0x34b0bcb5, 0x391c0cb3, 0x4ed8aa4a, 0x5b9cca4f, 0x682e6ff3]
     @ [0x748f82ee, 0x78a5636f, 0x84c87814, 0x8cc70208, 0x90befffa, 0xa4506ceb, 0xbef9a3f7, 0xc67178f2]"

type_synonym sha256_state = "int \<times> int \<times> int \<times> int \<times> int \<times> int \<times> int \<times> int"

text \<open>Modelled from the spec: the initial hash value of SHA-256.\<close>

definition sha256_h0 :: sha256_state where
  "sha256_h0 = (0x6a09e667, 0xbb67ae85, 0x3c6ef372, 0xa54ff53a,
                0x510e527f, 0x9b05688c, 0x1f83d9ab, 0x5be0cd19)"

text \<open>Modelled from the spec: the SHA-256 message schedule, extended by \<open>n\<close> words; the
  list holds the most recent word first.\<close>

fun sha256_schedule :: "nat \<Rightarrow> int list \<Rightarrow> int list" where
  "sha256_schedule 0 ws = ws"
| "sha256_schedule (Suc n) ws =
     sha256_schedule n
       (((ssig1 (ws ! 1) + ws ! 6 + ssig0 (ws ! 14) + ws ! 15) AND 0xffffffff) # ws)"

text \<open>Modelled from the spec: one round of the SHA-256 compression function.\<close>

fun sha256_round :: "sha256_state \<Rightarrow> int \<Rightarrow> int \<Rightarrow> sha256_state" where
  "sha256_round (a, b, c, d, e, f, g, h) k w =
     (let t1 = (h + bsig1 e + ch e f g + k + w) AND 0xffffffff;
          t2 = (bsig0 a + maj a b c) AND 0xffffffff
      in ((t1 + t2) AND 0xffffffff, a, b, c, (d + t1) AND 0xffffffff, e, f, g))"

text \<open>Modelled from the spec: the rounds of SHA-256 over the round constants and the
  schedule words.\<close>

fun sha256_rounds :: "sha256_state \<Rightarrow> int list \<Rightarrow> int list \<Rightarrow> sha256_state" where
  "sha256_rounds s (k # ks) (w # ws) = sha256_rounds (sha256_round s k w) ks ws"
| "sha256_rounds s _ _ = s"

text \<open>Modelled from the spec: word-wise addition modulo \<open>2^32\<close> of two SHA-256 states.\<close>

fun sha256_add :: "sha256_state \<Rightarrow> sha256_state \<Rightarrow> sha256_state" where
  "sha256_add (a, b, c, d, e, f, g, h) (a', b', c', d', e', f', g', h') =
     ((a + a') AND 0xffffffff, (b + b') AND 0xffffffff, (c + c') AND 0xffffffff,
      (d + d') AND 0xffffffff, (e + e') AND 0xffffffff, (f + f') AND 0xffffffff,
      (g + g') AND 0xffffffff, (h + h') AND 0xffffffff)"

text \<open>Modelled from the spec: the SHA-256 compression of one 64-byte block.\<close>

definition sha256_compress :: "sha256_state \<Rightarrow> bytes \<Rightarrow> sha256_state" where
  "sha256_compress hs block =
     sha256_add hs
       (sha256_rounds hs sha256_k (rev (sha256_schedule 48 (rev (be_words block)))))"

text \<open>Modelled from the spec: the SHA-256 compression of the padded message, block by
  block.\<close>

function sha256_blocks :: "sha256_state \<Rightarrow> bytes \<Rightarrow> sha256_state" where
  "sha256_blocks hs [] = hs"
| "sha256_blocks hs (b # bs) =
     sha256_blocks (sha256_compress hs (take 64 (b # bs))) (drop 64 (b # bs))"
  by pat_completeness auto
termination
  by (relation "measure (\<lambda>(hs, data). length data)") auto

text \<open>Modelled from the spec: the final SHA-256 state as 32 big-endian bytes.\<close>

fun sha256_output :: "sha256_state \<Rightarrow> bytes" where
  "sha256_output (a, b, c, d, e, f, g, h) =
     concat (map (num_to_be_bytes 4) [a, b, c, d, e, f, g, h])"

text \<open>Modelled from the spec: SHA-256.\<close>

definition sha256 :: "bytes \<Rightarrow> bytes" where
  "sha256 msg = sha256_output (sha256_blocks sha256_h0 (md_pad msg))"

type_synonym sha1_state = "int \<times> int \<times> int \<times> int \<times> int"

text \<open>Modelled from the spec: the initial hash value of SHA-1.\<close>

definition sha1_h0 :: sha1_state where
  "sha1_h0 = (0x67452301, 0xefcdab89, 0x98badcfe, 0x10325476, 0xc3d2e1f0)"

text \<open>Modelled from the spec: the SHA-1 message schedule, extended by \<open>n\<close> words; the list
  holds the most recent word first.\<close>

fun sha1_schedule :: "nat \<Rightarrow> int list \<Rightarrow> int list" where
  "sha1_schedule 0 ws = ws"
| "sha1_schedule (Suc n) ws =
     sha1_schedule n (rotl32 (ws ! 2 XOR ws ! 7 XOR ws ! 13 XOR ws ! 15) 1 # ws)"

text \<open>Modelled from the spec: the logical function of SHA-1 round \<open>t\<close>.\<close>

definition sha1_f :: "nat \<Rightarrow> int \<Rightarrow> int \<Rightarrow> int \<Rightarrow> int" where
  "sha1_f t b c d =
     (if t < 20 then ch b c d
      else if t < 40 then b XOR c XOR d
      else if t < 60 then maj b c d
      else b XOR c XOR d)"

text \<open>Modelled from the spec: the constant of SHA-1 round \<open>t\<close>.\<close>

definition sha1_k :: "nat \<Rightarrow> int" where
  "sha1_k t =
     (if t < 20 then 0x5a827999
      else if t < 40 then 0x6ed9eba1
      else if t < 60 then 0x8f1bbcdc
      else 0xca62c1d6)"

text \<open>Modelled from the spec: round \<open>t\<close> of the SHA-1 compression function.\<close>

fun sha1_round :: "nat \<Rightarrow> sha1_state \<Rightarrow> int \<Rightarrow> sha1_state" where
  "sha1_round t (a, b, c, d, e) w =
     ((rotl32 a 5 + sha1_f t b c d + e + sha1_k t + w) AND 0xffffffff,
      a, rotl32 b 30, c, d)"

text \<open>Modelled from the spec: the rounds of SHA-1 over the schedule words, from round
  \<open>t\<close> on.\<close>

fun sha1_rounds :: "nat \<Rightarrow> sha1_state \<Rightarrow> int list \<Rightarrow> sha1_state" where
  "sha1_rounds t s [] = s"
| "sha1_rounds t s (w # ws) = sha1_rounds (t + 1) (sha1_round t s w) ws"

text \<open>Modelled from the spec: word-wise addition modulo \<open>2^32\<close> of two SHA-1 states.\<close>

fun sha1_add :: "sha1_state \<Rightarrow> sha1_state \<Rightarrow> sha1_state" where
  "sha1_add (a, b, c, d, e) (a', b', c', d', e') =
     ((a + a') AND 0xffffffff, (b + b') AND 0xffffffff, (c + c') AND 0xffffffff,
      (d + d') AND 0xffffffff, (e + e') AND 0xffffffff)"

text \<open>Modelled from the spec: the SHA-1 compression of one 64-byte block.\<close>

definition sha1_compress :: "sha1_state \<Rightarrow> bytes \<Rightarrow> sha1_state" where
  "sha1_compress hs block =
     sha1_add hs (sha1_rounds 0 hs (rev (sha1_schedule 64 (rev (be_words block)))))"

text \<open>Modelled from the spec: the SHA-1 compression of the padded message, block by
  block.\<close>

function sha1_blocks :: "sha1_state \<Rightarrow> bytes \<Rightarrow> sha1_state" where
  "sha1_blocks hs [] = hs"
| "sha1_blocks hs (b # bs) =
     sha1_blocks (sha1_compress hs (take 64 (b # bs))) (drop 64 (b # bs))"
  by pat_completeness auto
termination
  by (relation "measure (\<lambda>(hs, data). length data)") auto

text \<open>Modelled from the spec: the final SHA-1 state as 20 big-endian bytes.\<close>

fun sha1_output :: "sha1_state \<Rightarrow> bytes" where
  "sha1_output (a, b, c, d, e) = concat (map (num_to_be_bytes 4) [a, b, c, d, e])"

text \<open>Modelled from the spec: SHA-1 (\<open>hashlib.sha1(...).digest()\<close> of
  \<open>tmp_pss.py\<close>, line 26).\<close>

definition sha1 :: "bytes \<Rightarrow> bytes" where
  "sha1 msg = sha1_output (sha1_blocks sha1_h0 (md_pad msg))"

text \<open>The hash algorithms the claims use; the spec's SHA-384 is not modelled.\<close>

datatype hash_name = SHA1 | SHA256

text \<open>Modelled from the spec: the digest length of a hash algorithm in bytes.\<close>

fun digest_size :: "hash_name \<Rightarrow> nat" where
  "digest_size SHA1 = 20"
| "digest_size SHA256 = 32"

text \<open>Modelled from the spec: the hash of a byte string under the named algorithm (the
  library's absent \<open>secureHash\<close>).\<close>

fun secureHash :: "bytes \<Rightarrow> hash_name \<Rightarrow> bytes" where
  "secureHash data SHA1 = sha1 data"
| "secureHash data SHA256 = sha256 data"

text \<open>Modelled from the spec: \<open>divceil\<close>, the quotient rounded up.\<close>

definition divceil :: "nat \<Rightarrow> nat \<Rightarrow> nat" where
  "divceil n d = (n + d - 1) div d"

section \<open>PRF and verify data (\<open>tlslite.mathtls\<close>)\<close>

text \<open>Modelled from the spec: HMAC with the named hash (section 4.2 defines the PRF by
  HMAC; both hashes have 64-byte blocks): a key longer than a block is hashed first, then
  zero-padded to a block; the inner pad is \<open>0x36\<close>, the outer pad \<open>0x5c\<close>.\<close>

definition HMAC :: "hash_name \<Rightarrow> bytes \<Rightarrow> bytes \<Rightarrow> bytes" where
  "HMAC alg key msg =
     (let k = (if 64 < length key then secureHash key alg else key);
          k = k @ replicate (64 - length k) 0
      in secureHash (map (\<lambda>b. b XOR 0x5c) k
                       @ secureHash (map (\<lambda>b. b XOR 0x36) k @ msg) alg) alg)"

text \<open>Modelled from the spec: the iteration of \<open>P_hash\<close> (section 4.2): with \<open>a\<close> the
  previous \<open>A(i-1)\<close>, \<open>A(i) = HMAC(secret, A(i-1))\<close> and output block \<open>i\<close> is
  \<open>HMAC(secret, A(i) \<parallel> seed)\<close>; \<open>n\<close> blocks are concatenated.\<close>

fun P_hash_loop :: "nat \<Rightarrow> hash_name \<Rightarrow> bytes \<Rightarrow> bytes \<Rightarrow> bytes \<Rightarrow> bytes" where
  "P_hash_loop 0 alg secret seed a = []"
| "P_hash_loop (Suc n) alg secret seed a =
     (let a' = HMAC alg secret a
      in HMAC alg secret (a' @ seed) @ P_hash_loop n alg secret seed a')"

text \<open>Modelled from the spec: \<open>PRF(secret, label, seed, outputLength, hashAlgorithm)\<close> of
  section 4.2: \<open>P_hash(secret, label \<parallel> seed)\<close> with \<open>A(0) = label \<parallel> seed\<close>, as many
  blocks as the output length needs, truncated to \<open>outputLength\<close> bytes.\<close>

definition PRF :: "bytes \<Rightarrow> bytes \<Rightarrow> bytes \<Rightarrow> nat \<Rightarrow> hash_name \<Rightarrow> bytes" where
  "PRF secret label seed outputLength alg =
     take outputLength
       (P_hash_loop (divceil outputLength (digest_size alg)) alg secret
          (label @ seed) (label @ seed))"





section \<open>EMSA-PSS encoding (\<open>tlslite.utils.rsakey\<close>)\<close>

text \<open>Modelled from the spec: the blocks of the mask generation function MGF1:
  \<open>Hash(seed \<parallel> counter)\<close> for the 4-byte big-endian counters \<open>x\<close>, \<open>x + 1\<close>, ...
  (section 4.4 names MGF1 only).\<close>

fun MGF1_loop :: "nat \<Rightarrow> nat \<Rightarrow> bytes \<Rightarrow> hash_name \<Rightarrow> bytes" where
  "MGF1_loop 0 x mgfSeed hAlg = []"
| "MGF1_loop (Suc n) x mgfSeed hAlg =
     secureHash (mgfSeed @ num_to_be_bytes 4 (int x)) hAlg
       @ MGF1_loop n (x + 1) mgfSeed hAlg"

text \<open>Modelled from the spec: MGF1, the mask of \<open>maskLen\<close> bytes derived from a seed.\<close>

definition MGF1 :: "bytes \<Rightarrow> nat \<Rightarrow> hash_name \<Rightarrow> bytes" where
  "MGF1 mgfSeed maskLen hAlg =
     take maskLen (MGF1_loop (divceil maskLen (digest_size hAlg)) 0 mgfSeed hAlg)"

text \<open>Modelled from the spec: clearing the \<open>mLen\<close> top bits of the first byte (section
  4.4: the bits exceeding the embedded-message bit length).\<close>

fun clear_top_bits :: "bytes \<Rightarrow> nat \<Rightarrow> bytes" where
  "clear_top_bits [] mLen = []"
| "clear_top_bits (b # bs) mLen = (b AND word_of_int (2 ^ (8 - mLen) - 1)) # bs"

text \<open>Modelled from the spec: \<open>EMSA_PSS_encode(mHash, emBits, hAlg, sLen)\<close> of the absent
  \<open>tlslite.utils.rsakey\<close>, the \<open>encodePSS\<close> of section 4.4: \<open>H\<close> is the hash of 8 zero
  bytes, the message digest and the salt; \<open>DB\<close> is zero padding, the byte 1 and the salt;
  \<open>DB\<close> is masked with MGF1 of \<open>H\<close>, its top bits are cleared, and \<open>H\<close> and the trailer
  byte \<open>0xBC\<close> are appended. The encoding fails if the encoded message cannot hold digest
  length + salt length + 2 bytes. The salt comes from the random-byte source, here a
  parameter, which the script replaces by its own function.\<close>

definition EMSA_PSS_encode ::
  "(nat \<Rightarrow> error + bytes) \<Rightarrow> bytes \<Rightarrow> nat \<Rightarrow> hash_name \<Rightarrow> nat \<Rightarrow> error + bytes" where
  "EMSA_PSS_encode getRandomBytes mHash emBits hAlg sLen =
     (let hashLen = digest_size hAlg;
          emLen = divceil emBits 8
      in if emLen < hashLen + sLen + 2 then Inl EncodingError
         else case getRandomBytes sLen of
                Inl e \<Rightarrow> Inl e
              | Inr salt_bytes \<Rightarrow>
                 (let H = secureHash (replicate 8 0 @ mHash @ salt_bytes) hAlg;
                      DB = replicate (emLen - sLen - hashLen - 2) 0 @ [0x01] @ salt_bytes;
                      dbMask = MGF1 H (emLen - hashLen - 1) hAlg;
                      maskedDB = clear_top_bits (xor_zip DB dbMask) (emLen * 8 - emBits)
                  in Inr (maskedDB @ H @ [0xbc])))"

section \<open>The values of \<open>scripts/verify_chacha_encryption.py\<close>\<close>

text \<open>Lines 19-23, the hexadecimal strings written out byte by byte.\<close>

definition client_key :: bytes where
  "client_key = [0xec, 0x05, 0x07, 0x28, 0x43, 0xde, 0x41, 0x45, 0x9c, 0x43, 0x5f, 0xf2,
                 0x41, 0xb3, 0x67, 0x04, 0x59, 0x50, 0xd2, 0x10, 0xa1, 0xd3, 0x2d, 0x74,
                 0xa1, 0x08, 0x9d, 0x86, 0x2c, 0x99, 0x85, 0xa8]"

definition client_iv :: bytes where
  "client_iv = [0x3d, 0xfa, 0x01, 0x41, 0xec, 0x76, 0x9e, 0x5b, 0x7f, 0xef, 0x64, 0xc4]"

definition seq_num :: bytes where
  "seq_num = [0, 0, 0, 0, 0, 0, 0, 0]"

definition plaintext :: bytes where
  "plaintext = [0x14, 0x00, 0x00, 0x0c, 0x31, 0xbb, 0xf9, 0xd6, 0x68, 0x0e, 0x90, 0x91,
                0x20, 0xcd, 0xbf, 0xd2]"

definition dart_ciphertext :: bytes where
  "dart_ciphertext =
     [0x2c, 0x71, 0x7d, 0x02, 0xff, 0x6f, 0xd0, 0x5b, 0xd6, 0x9c, 0x89, 0x22, 0x68, 0xff,
      0x8b, 0x7b, 0xa2, 0x89, 0x9e, 0x52, 0x6a, 0x99, 0x6c, 0x7e, 0x79, 0x1e, 0x0f, 0xe1,
      0x1b, 0x56, 0xd8, 0x8b]"

text \<open>Lines 32-34.\<close>

definition content_type :: int where
  "content_type = 22"

definition version :: "int \<times> int" where
  "version = (3, 3)"

definition plaintext_length :: int where
  "plaintext_length = int (length plaintext)"

text \<open>Lines 50-51: \<open>python_ciphertext = cipher.seal(nonce, plaintext, aad)\<close>, with the nonce
  of line 28 and the additional data of line 36; an exception of an earlier line is the
  result.\<close>

definition python_ciphertext :: "error + bytes" where
  "python_ciphertext =
     (case nonce client_iv seq_num of
        Inl e \<Rightarrow> Inl e
      | Inr n \<Rightarrow>
          (case aad seq_num content_type version plaintext_length of
             Inl e \<Rightarrow> Inl e
           | Inr a \<Rightarrow> seal client_key n plaintext a))"

text \<open>Lines 63-64, in the branch the script enters when the two ciphertexts differ:
  \<open>alt_ciphertext = cipher.seal(alt_nonce, plaintext, aad)\<close> with
  \<open>alt_nonce = client_iv\<close>.\<close>

definition alt_ciphertext :: "error + bytes" where
  "alt_ciphertext =
     (case aad seq_num content_type version plaintext_length of
        Inl e \<Rightarrow> Inl e
      | Inr a \<Rightarrow> seal client_key client_iv plaintext a)"

text \<open>Lines 69-71: \<open>alt_ciphertext2 = cipher.seal(nonce, plaintext, alt_aad)\<close>.\<close>

definition alt_ciphertext2 :: "error + bytes" where
  "alt_ciphertext2 =
     (case nonce client_iv seq_num of
        Inl e \<Rightarrow> Inl e
      | Inr n \<Rightarrow>
          (case alt_aad content_type version plaintext_length of
             Inl e \<Rightarrow> Inl e
           | Inr a \<Rightarrow> seal client_key n plaintext a))"

section \<open>The values of \<open>scripts/compare_transcript_hash.py\<close>\<close>

text \<open>A byte-string literal \<open>b'...'\<close> of ASCII characters.\<close>

definition ascii :: "string \<Rightarrow> bytes" where
  "ascii s = map (\<lambda>c. of_nat (of_char c)) s"

text \<open>Line 27: the 16 bytes \<open>0d36cc66603f174aa02ac40bc0b9409c\<close>, three times.\<close>

definition master_secret :: bytes where
  "master_secret =
     concat (replicate 3 [0x0d, 0x36, 0xcc, 0x66, 0x60, 0x3f, 0x17, 0x4a, 0xa0, 0x2a, 0xc4,
                          0x0b, 0xc0, 0xb9, 0x40, 0x9c])"

text \<open>Line 28.\<close>

definition handshake_hash :: bytes where
  "handshake_hash =
     [0xc9, 0xaa, 0x1a, 0x57, 0x7a, 0xdc, 0x99, 0x5f, 0x6c, 0xea, 0xc7, 0x34, 0xfa, 0x49,
      0x6a, 0x69, 0xdc, 0xc3, 0xdc, 0x26, 0x84, 0x07, 0x25, 0x07, 0x11, 0x01, 0xa8, 0x27,
      0x05, 0x14, 0x24, 0x21]"





text \<open>Lines 56-58.\<close>

definition seed :: bytes where
  "seed = handshake_hash"

definition label :: bytes where
  "label = ascii ''client finished''"



section \<open>The values of \<open>tmp_pss.py\<close>\<close>

text \<open>Lines 15-16. The RSA key of lines 9-13 and 24 takes no part in the encoding.\<close>

definition salt :: bytes where
  "salt = [0x11, 0x22, 0x33, 0x44, 0x55, 0x54, 0x32, 0x16, 0x78, 0x90]"

definition pss_message :: bytes where
  "pss_message =
     [0xc7, 0xf5, 0x27, 0x0f, 0xca, 0x72, 0x72, 0x5f, 0x9b, 0xd1, 0x9f, 0x51, 0x9a, 0x8d,
      0x7c, 0xca, 0x3c, 0xc5, 0xc0, 0x79, 0x02, 0x40, 0x29, 0xf3, 0xba, 0xe5, 0x10, 0xf9,
      0xb0, 0x21, 0x40, 0xfe, 0x23, 0x89, 0x08, 0xe4, 0xf6, 0xc1, 0x8f, 0x07, 0xa8, 0x9c,
      0x68, 0x7c, 0x86, 0x84, 0x66, 0x9b, 0x1f, 0x1d, 0xb2, 0xba, 0xf9, 0x25, 0x1a, 0x3c,
      0x82, 0x9f, 0xac, 0xcb, 0x49, 0x30, 0x84, 0xe1, 0x6e, 0xc9, 0xe2, 0x8d, 0x58, 0x86,
      0x80, 0x74, 0xa5, 0xd6, 0x22, 0x16, 0x67, 0xdd, 0x6e, 0x52, 0x8d, 0x16, 0xfe, 0x2c,
      0x9f, 0x3d, 0xb4, 0xcf, 0xaf, 0x6c, 0x4d, 0xce, 0x8c, 0x84, 0x39, 0xaf, 0x38, 0xce,
      0xaa, 0xaa, 0x9c, 0xe2, 0xec, 0xae, 0x7b, 0xc8, 0xf4, 0xa5, 0xa5, 0x5e, 0x3b, 0xf9,
      0x6d, 0xf9, 0xcd, 0x57, 0x5c, 0x4f, 0x9c, 0xb3, 0x27, 0x95, 0x1b, 0x8c, 0xdf, 0xe4,
      0x08, 0x71, 0x68]"

text \<open>Lines 19-21: \<open>assert length == len(salt); return salt\<close>.\<close>

definition fake_get_random_bytes :: "nat \<Rightarrow> error + bytes" where
  "fake_get_random_bytes len = (if len = length salt then Inr salt else Inl AssertionError)"

text \<open>Line 25.\<close>

definition m_hash :: bytes where
  "m_hash = sha1 pss_message"

text \<open>Line 26, after line 22 has made \<open>fake_get_random_bytes\<close> the random-byte source.\<close>

definition em :: "error + bytes" where
  "em = EMSA_PSS_encode fake_get_random_bytes m_hash 1023 SHA1 10"

section \<open>Properties of the nonce and the additional data\<close>

lemma and_255_range: "0 \<le> (n::int) AND 255 \<and> n AND 255 < 256"
proof -
  have "n AND 255 = take_bit 8 n"
    by (simp add: take_bit_eq_mask mask_eq_exp_minus_1)
  then show ?thesis
    by (simp add: take_bit_eq_mod)
qed

lemma drop_bit_8_range:
  "0 \<le> (n::int) \<Longrightarrow> n < 65536 \<Longrightarrow> 0 \<le> drop_bit 8 n \<and> drop_bit 8 n < 256"
  by (simp add: drop_bit_eq_div pos_imp_zdiv_nonneg_iff)

lemma drop_bit_8_large: "65536 \<le> (n::int) \<Longrightarrow> 256 \<le> drop_bit 8 n"
  by (simp add: drop_bit_eq_div)

lemma aad_short:
  assumes "0 \<le> ct" "ct < 256" "0 \<le> mj" "mj < 256" "0 \<le> mi" "mi < 256"
    and "0 \<le> n" "n < 65536"
  shows "aad s ct (mj, mi) n =
           Inr (s @ [word_of_int ct, word_of_int mj, word_of_int mi,
                     word_of_int (drop_bit 8 n), word_of_int (n AND 255)])"
  using assms drop_bit_8_range [of n] and_255_range [of n]
  by (simp add: aad_def bytes_of_ints_def)

lemma aad_long: "65536 \<le> n \<Longrightarrow> aad s ct v n = Inl ValueError"
  using drop_bit_8_large [of n] by (simp add: aad_def bytes_of_ints_def)

lemma length_bytes_value:
  assumes "0 \<le> (n::int)" "n < 65536"
  shows "256 * uint (word_of_int (drop_bit 8 n) :: byte)
           + uint (word_of_int (n AND 255) :: byte) = n"
proof -
  have hi: "uint (word_of_int (drop_bit 8 n) :: byte) = n div 256"
    using drop_bit_8_range [OF assms]
    by (simp add: uint_word_of_int take_bit_eq_mod drop_bit_eq_div)
  have "n AND 255 = n mod 256"
    by (simp add: take_bit_eq_mod flip: take_bit_eq_mask [of 8 n, simplified mask_eq_exp_minus_1, simplified])
  then have lo: "uint (word_of_int (n AND 255) :: byte) = n mod 256"
    by (simp add: uint_word_of_int take_bit_eq_mod)
  show ?thesis
    unfolding hi lo by simp
qed

text \<open>
  C5: for a plaintext whose length fits in two bytes, the additional data is the 8-byte
  sequence number, the content type, the two version bytes and the big-endian 2-byte
  plaintext length, in that order: 13 bytes in all.
\<close>

theorem aad_layout:
  assumes "length sq = 8" and "length pt < 65536"
    and "0 \<le> ct" "ct < 256"
    and "0 \<le> major" "major < 256" "0 \<le> minor" "minor < 256"
  shows "\<exists>hi lo. aad sq ct (major, minor) (int (length pt)) =
             Inr (sq @ [word_of_int ct, word_of_int major,
                             word_of_int minor, hi, lo])
           \<and> 256 * uint hi + uint lo = int (length pt)
           \<and> length (sq @ [word_of_int ct, word_of_int major,
                                 word_of_int minor, hi, lo]) = 13"
proof -
  let ?n = "int (length pt)"
  have n: "0 \<le> ?n" "?n < 65536"
    using assms(2) by simp_all
  have "aad sq ct (major, minor) ?n =
          Inr (sq @ [word_of_int ct, word_of_int major, word_of_int minor,
                          word_of_int (drop_bit 8 ?n), word_of_int (?n AND 255)])"
    using assms(3-8) n by (rule aad_short)
  moreover have "256 * uint (word_of_int (drop_bit 8 ?n) :: byte)
                   + uint (word_of_int (?n AND 255) :: byte) = ?n"
    using n by (rule length_bytes_value)
  ultimately show ?thesis
    using assms(1) by auto
qed

theorem aad_layout_witness:
  "length seq_num = 8 \<and> length plaintext < 65536
   \<and> aad seq_num 22 (3, 3) (int (length plaintext)) = Inr (seq_num @ [22, 3, 3, 0, 16])
   \<and> length (seq_num @ [22, 3, 3, 0, 16 :: byte]) = 13"
  using aad_layout [of seq_num plaintext 22 3 3]
  by (simp add: seq_num_def plaintext_def aad_def bytes_of_ints_def)

text \<open>
  C10: with the 8-byte sequence number, the content type and the version of the script,
  the additional data is defined exactly for plaintexts shorter than 65536 bytes: it is
  then 13 bytes long; for a plaintext of 65536 bytes or more the high length byte
  \<open>length >> 8\<close> exceeds 255 and the construction raises \<open>ValueError\<close>.
\<close>

theorem aad_total_below_65536:
  assumes "length sq = 8"
  shows "(length pt < 65536 \<longrightarrow>
            (\<exists>a. aad sq content_type version (int (length pt)) = Inr a \<and> length a = 13))
       \<and> (65536 \<le> length pt \<longrightarrow>
            255 < drop_bit 8 (int (length pt))
            \<and> aad sq content_type version (int (length pt)) = Inl ValueError)"
proof (intro conjI impI)
  assume "length pt < 65536"
  then have "aad sq 22 (3, 3) (int (length pt)) =
               Inr (sq @ [word_of_int 22, word_of_int 3, word_of_int 3,
                          word_of_int (drop_bit 8 (int (length pt))),
                          word_of_int (int (length pt) AND 255)])"
    by (intro aad_short) simp_all
  then show "\<exists>a. aad sq content_type version (int (length pt)) = Inr a \<and> length a = 13"
    using assms by (simp add: content_type_def version_def)
next
  assume "65536 \<le> length pt"
  then have "65536 \<le> int (length pt)" by simp
  then show "255 < drop_bit 8 (int (length pt))"
    using drop_bit_8_large [of "int (length pt)"] by simp
next
  assume "65536 \<le> length pt"
  then have "65536 \<le> int (length pt)" by simp
  then show "aad sq content_type version (int (length pt)) = Inl ValueError"
    by (rule aad_long)
qed

theorem aad_total_below_65536_witness:
  "length seq_num = 8
   \<and> (\<exists>a. aad seq_num content_type version (int (length plaintext)) = Inr a \<and> length a = 13)
   \<and> aad seq_num content_type version (int (length (replicate 65536 (0::byte))))
       = Inl ValueError"
  using aad_total_below_65536 [of seq_num plaintext]
        aad_total_below_65536 [of seq_num "replicate 65536 (0::byte)"]
  by (simp add: seq_num_def plaintext_def)


lemma length_xor_zip: "length (xor_zip xs ys) = min (length xs) (length ys)"
  by (simp add: xor_zip_def)

lemma take_xor_zip: "take n (xor_zip xs ys) = xor_zip (take n xs) (take n ys)"
  by (simp add: xor_zip_def take_map take_zip)

lemma xor_zip_zeros: "length xs \<le> n \<Longrightarrow> xor_zip xs (replicate n 0) = xs"
proof (induction xs arbitrary: n)
  case Nil
  then show ?case by (simp add: xor_zip_def)
next
  case (Cons x xs)
  then obtain m where "n = Suc m" by (cases n) auto
  with Cons show ?case by (simp add: xor_zip_def)
qed

lemma xor_zip_involution: "length ys \<le> length ks \<Longrightarrow> xor_zip ks (xor_zip ks ys) = ys"
proof (induction ys arbitrary: ks)
  case Nil
  then show ?case by (simp add: xor_zip_def)
next
  case (Cons y ys)
  then obtain k ks' where "ks = k # ks'" by (cases ks) auto
  with Cons show ?case by (simp add: xor_zip_def)
qed

lemma padded_seq_8: "length sq = 8 \<Longrightarrow> padded_seq sq = Inr (replicate 4 0 @ sq)"
  by (simp add: padded_seq_def zero_bytes_def)

lemma xor_zip_nth:
  "i < length xs \<Longrightarrow> i < length ys \<Longrightarrow> xor_zip xs ys ! i = xs ! i XOR ys ! i"
  by (simp add: xor_zip_def)

lemma xor_zip_by_index:
  "xor_zip xs ys = map (\<lambda>i. xs ! i XOR ys ! i) [0..<min (length xs) (length ys)]"
  by (rule nth_equalityI) (simp_all add: length_xor_zip xor_zip_nth)

text \<open>
  C4: for every 8-byte sequence number and every 12-byte fixed IV the sequence number is
  padded to 12 bytes by four zero bytes on the left, and byte \<open>i\<close> of the nonce is byte
  \<open>i\<close> of the fixed IV XOR byte \<open>i\<close> of the padded sequence number: the first four bytes
  of the nonce are those of the fixed IV, and byte \<open>4 + i\<close> is byte \<open>4 + i\<close> of the fixed
  IV XOR byte \<open>i\<close> of the sequence number.
\<close>

theorem nonce_left_padded:
  assumes "length sq = 8" and "length iv = 12"
  shows "padded_seq sq = Inr (replicate 4 0 @ sq)
       \<and> nonce iv sq = Inr (map (\<lambda>i. iv ! i XOR (replicate 4 0 @ sq) ! i) [0..<12])
       \<and> nonce iv sq = Inr (take 4 iv @ map (\<lambda>i. iv ! (4 + i) XOR sq ! i) [0..<8])"
proof -
  let ?p = "replicate 4 (0::byte) @ sq"
  have p: "padded_seq sq = Inr ?p"
    using assms(1) by (rule padded_seq_8)
  have n: "nonce iv sq = Inr (xor_zip iv ?p)"
    by (simp add: nonce_def p)
  have byidx: "xor_zip iv ?p = map (\<lambda>i. iv ! i XOR ?p ! i) [0..<12]"
    using assms by (simp add: xor_zip_by_index)
  have split: "xor_zip iv ?p = take 4 iv @ map (\<lambda>i. iv ! (4 + i) XOR sq ! i) [0..<8]"
  proof (rule nth_equalityI)
    show "length (xor_zip iv ?p)
            = length (take 4 iv @ map (\<lambda>i. iv ! (4 + i) XOR sq ! i) [0..<8])"
      using assms by (simp add: length_xor_zip)
  next
    fix i
    assume "i < length (xor_zip iv ?p)"
    then have i: "i < 12"
      using assms by (simp add: length_xor_zip)
    show "xor_zip iv ?p ! i = (take 4 iv @ map (\<lambda>i. iv ! (4 + i) XOR sq ! i) [0..<8]) ! i"
    proof (cases "i < 4")
      case True
      then show ?thesis
        using assms i by (simp add: xor_zip_nth nth_append)
    next
      case False
      with i have "i - 4 < 8" and "4 + (i - 4) = i"
        by simp_all
      with False show ?thesis
        using assms i by (simp add: xor_zip_nth nth_append)
    qed
  qed
  from p n byidx split show ?thesis by simp
qed

theorem nonce_left_padded_witness:
  "length [0, 0, 0, 0, 0, 0, 0, 1 :: byte] = 8 \<and> length client_iv = 12
   \<and> padded_seq [0, 0, 0, 0, 0, 0, 0, 1] = Inr [0, 0, 0, 0, 0, 0, 0, 0, 0, 0, 0, 1]
   \<and> nonce client_iv [0, 0, 0, 0, 0, 0, 0, 1] =
       Inr [0x3d, 0xfa, 0x01, 0x41, 0xec, 0x76, 0x9e, 0x5b, 0x7f, 0xef, 0x64, 0xc5]"
proof -
  have len: "length [0, 0, 0, 0, 0, 0, 0, 1 :: byte] = 8" "length client_iv = 12"
    by (simp_all add: client_iv_def)
  have v: "take 4 client_iv
             @ map (\<lambda>i. client_iv ! (4 + i) XOR [0, 0, 0, 0, 0, 0, 0, 1 :: byte] ! i) [0..<8]
             = [0x3d, 0xfa, 0x01, 0x41, 0xec, 0x76, 0x9e, 0x5b, 0x7f, 0xef, 0x64, 0xc5]"
    by code_simp
  have r: "replicate 4 (0::byte) @ [0, 0, 0, 0, 0, 0, 0, 1]
             = [0, 0, 0, 0, 0, 0, 0, 0, 0, 0, 0, 1]"
    by code_simp
  note inst = nonce_left_padded [OF len]
  from inst have a:
    "padded_seq [0, 0, 0, 0, 0, 0, 0, 1] = Inr [0, 0, 0, 0, 0, 0, 0, 0, 0, 0, 0, 1]"
    unfolding r by (rule conjunct1)
  from inst have b:
    "nonce client_iv [0, 0, 0, 0, 0, 0, 0, 1] =
       Inr [0x3d, 0xfa, 0x01, 0x41, 0xec, 0x76, 0x9e, 0x5b, 0x7f, 0xef, 0x64, 0xc5]"
    unfolding v by (rule conjunct2 [THEN conjunct2])
  from len a b show ?thesis
    by (intro conjI)
qed

lemma nonce_zero_seq: "length iv = 12 \<Longrightarrow> nonce iv (replicate 8 0) = Inr iv"
proof -
  assume len: "length iv = 12"
  have "replicate 4 (0::byte) @ replicate 8 0 = replicate 12 0"
    by (simp flip: replicate_add)
  then have "padded_seq (replicate 8 0) = Inr (replicate 12 0)"
    by (simp add: padded_seq_8)
  then show ?thesis
    using len by (simp add: nonce_def xor_zip_zeros)
qed

text \<open>
  C3: for every 12-byte fixed IV and the all-zero 8-byte sequence number, the padded
  sequence number is 12 zero bytes and the nonce is the fixed IV itself; so sealing with
  the XOR-derived nonce and sealing with the fixed IV as the nonce give the same result,
  all other arguments equal.
\<close>

theorem zero_seq_nonce_is_iv:
  assumes "length iv = 12"
  shows "padded_seq (replicate 8 0) = Inr (replicate 12 0)
       \<and> nonce iv (replicate 8 0) = Inr iv
       \<and> (\<forall>key pt data.
             (case nonce iv (replicate 8 0) of Inl e \<Rightarrow> Inl e | Inr n \<Rightarrow> seal key n pt data)
               = seal key iv pt data)"
proof -
  have "replicate 4 (0::byte) @ replicate 8 0 = replicate 12 0"
    by (simp flip: replicate_add)
  then have "padded_seq (replicate 8 0) = Inr (replicate 12 0)"
    by (simp add: padded_seq_8)
  moreover have "nonce iv (replicate 8 0) = Inr iv"
    using assms by (rule nonce_zero_seq)
  ultimately show ?thesis by simp
qed

theorem zero_seq_nonce_is_iv_witness:
  "length client_iv = 12
   \<and> padded_seq (replicate 8 0) = Inr (replicate 12 0)
   \<and> nonce client_iv (replicate 8 0) = Inr client_iv
   \<and> (case nonce client_iv (replicate 8 0) of
         Inl e \<Rightarrow> Inl e
       | Inr n \<Rightarrow> seal client_key n plaintext seq_num)
      = seal client_key client_iv plaintext seq_num"
  using zero_seq_nonce_is_iv [of client_iv]
  by (simp add: client_iv_def)

lemma length_num_to_le_bytes: "length (num_to_le_bytes k n) = k"
  by (induction k arbitrary: n) simp_all

lemma length_bytearray_to_words: "length (bytearray_to_words bs) = length bs div 4"
  by (induction bs rule: bytearray_to_words.induct) simp_all

lemma length_quarter_round: "length (quarter_round x a b c d) = length x"
  by (simp add: quarter_round_def Let_def)

lemma length_double_round: "length (double_round x) = length x"
  by (simp add: double_round_def length_quarter_round)

lemma length_rounds_loop: "length (rounds_loop n x) = length x"
  by (induction n arbitrary: x) (simp_all add: length_double_round)

lemma length_chacha_block:
  "length (chacha_block key counter nw rounds) = 5 + length key + length nw"
  by (simp add: chacha_block_def Let_def constants_def length_rounds_loop)

lemma length_word_to_bytearray: "length (word_to_bytearray ws) = 4 * length ws"
  by (induction ws) (simp_all add: word_to_bytearray_def length_num_to_le_bytes)

lemma length_key_stream:
  "length key = 8 \<Longrightarrow> length nw = 3 \<Longrightarrow>
   length (word_to_bytearray (chacha_block key counter nw 20)) = 64"
  by (simp add: length_word_to_bytearray length_chacha_block)

lemma encrypt_loop_unfold:
  "encrypt_loop key counter nw d =
     (if d = [] then []
      else xor_zip (word_to_bytearray (chacha_block key counter nw 20)) (take 64 d)
             @ encrypt_loop key (counter + 1) nw (drop 64 d))"
  by (cases d) simp_all

lemma encrypt_loop_involution:
  "length key = 8 \<Longrightarrow> length nw = 3 \<Longrightarrow>
   encrypt_loop key counter nw (encrypt_loop key counter nw d) = d"
proof (induction key counter nw d rule: encrypt_loop.induct)
  case (1 key counter nw)
  then show ?case by simp
next
  case (2 key counter nw p ps)
  let ?ks = "word_to_bytearray (chacha_block key counter nw 20)"
  let ?d = "p # ps"
  let ?X = "xor_zip ?ks (take 64 ?d)"
  let ?R = "encrypt_loop key (counter + 1) nw (drop 64 ?d)"
  have ks: "length ?ks = 64"
    using "2.prems" by (rule length_key_stream)
  have lenX: "length ?X = min 64 (length ?d)"
    by (simp add: length_xor_zip ks)
  then have ne: "?X @ ?R \<noteq> []"
    by auto
  have R: "length ?d < 64 \<Longrightarrow> ?R = []"
    by simp
  have tk: "take 64 (?X @ ?R) = ?X"
  proof (cases "64 \<le> length ?d")
    case True
    with lenX show ?thesis by simp
  next
    case False
    with lenX R show ?thesis by simp
  qed
  have dr: "drop 64 (?X @ ?R) = ?R"
  proof (cases "64 \<le> length ?d")
    case True
    with lenX show ?thesis by simp
  next
    case False
    with lenX R show ?thesis by simp
  qed
  have inv: "xor_zip ?ks ?X = take 64 ?d"
    by (rule xor_zip_involution) (simp add: ks)
  have IH: "encrypt_loop key (counter + 1) nw ?R = drop 64 ?d"
    using "2.IH" "2.prems" by simp
  have "encrypt_loop key counter nw (encrypt_loop key counter nw ?d)
          = encrypt_loop key counter nw (?X @ ?R)"
    by simp
  also have "\<dots> = (if ?X @ ?R = [] then []
                     else xor_zip ?ks (take 64 (?X @ ?R))
                            @ encrypt_loop key (counter + 1) nw (drop 64 (?X @ ?R)))"
    by (rule encrypt_loop_unfold)
  also have "\<dots> = xor_zip ?ks (take 64 (?X @ ?R))
                    @ encrypt_loop key (counter + 1) nw (drop 64 (?X @ ?R))"
    by (simp only: ne if_False)
  also have "\<dots> = take 64 ?d @ drop 64 ?d"
    unfolding tk dr inv IH ..
  finally show ?case by simp
qed

lemma chacha_encrypt_involution:
  "length key = 32 \<Longrightarrow> length nb = 12 \<Longrightarrow>
   chacha_encrypt key nb counter (chacha_encrypt key nb counter d) = d"
  by (simp add: chacha_encrypt_def encrypt_loop_involution length_bytearray_to_words)

lemma length_create_tag: "length (create_tag k d) = 16"
  by (simp add: create_tag_def Let_def length_num_to_le_bytes)

text \<open>
  C6: for every key, nonce, additional data and plaintext, \<open>open\<close> applied to an output
  of \<open>seal\<close> with the same key, nonce and additional data returns the plaintext; and
  \<open>seal\<close> has an output for every 32-byte key and 12-byte nonce.
\<close>

theorem open_seal_round_trip:
  "(\<forall>ct. seal key nb pt data = Inr ct \<longrightarrow> open key nb ct data = Inr pt)
   \<and> (length key = 32 \<and> length nb = 12 \<longrightarrow> (\<exists>ct. seal key nb pt data = Inr ct))"
proof (intro conjI allI impI)
  fix ct
  assume sealed: "seal key nb pt data = Inr ct"
  let ?c = "chacha_encrypt key nb 1 pt"
  let ?t = "create_tag (poly1305_key_gen key nb) (mac_data data ?c)"
  from sealed have len: "length key = 32" "length nb = 12"
    by (auto simp: seal_def split: if_splits)
  with sealed have ct: "ct = ?c @ ?t"
    by (simp add: seal_def Let_def)
  have lt: "length ?t = 16"
    by (rule length_create_tag)
  have body: "take (length (?c @ ?t) - 16) (?c @ ?t) = ?c"
    using lt by simp
  have tag: "drop (length (?c @ ?t) - 16) (?c @ ?t) = ?t"
    using lt by simp
  have "open key nb (?c @ ?t) data = Inr (chacha_encrypt key nb 1 ?c)"
    unfolding open_def Let_def body tag using len lt by simp
  then show "open key nb ct data = Inr pt"
    using len ct by (simp add: chacha_encrypt_involution)
next
  assume "length key = 32 \<and> length nb = 12"
  then show "\<exists>ct. seal key nb pt data = Inr ct"
    by (simp add: seal_def Let_def)
qed

theorem open_seal_round_trip_witness:
  "length client_key = 32 \<and> length client_iv = 12
   \<and> (\<exists>ct. seal client_key client_iv plaintext seq_num = Inr ct
            \<and> open client_key client_iv ct seq_num = Inr plaintext)"
proof -
  have len: "length client_key = 32 \<and> length client_iv = 12"
    by (simp add: client_key_def client_iv_def)
  from open_seal_round_trip [of client_key client_iv plaintext seq_num] len
  show ?thesis by blast
qed

section \<open>The known-answer vector\<close>

lemma kat_python_ciphertext: "python_ciphertext = Inr dart_ciphertext"
  by code_simp

lemma kat_alt_ciphertext: "alt_ciphertext = Inr dart_ciphertext"
  by code_simp

lemma kat_alt_ciphertext2:
  "alt_ciphertext2 =
     Inr [0x2c, 0x71, 0x7d, 0x02, 0xff, 0x6f, 0xd0, 0x5b, 0xd6, 0x9c, 0x89, 0x22, 0x68, 0xff,
          0x8b, 0x7b, 0x74, 0x2a, 0x0a, 0x14, 0xd2, 0x0f, 0xa5, 0x78, 0xb0, 0xfc, 0xe3, 0x11,
          0xe5, 0x2c, 0xa8, 0x3a]"
  by code_simp

lemma kat_alt_ciphertext2_differs: "alt_ciphertext2 \<noteq> Inr dart_ciphertext"
  by (simp add: kat_alt_ciphertext2 dart_ciphertext_def)

text \<open>
  C1: with the key, fixed IV, sequence number 0, content type 22, version (3,3) and
  plaintext of the script, the nonce being the fixed IV XOR the left-padded sequence number
  and the additional data the 13 bytes of sequence number, type, version and length,
  ChaCha20-Poly1305 sealing gives exactly the 32 bytes \<open>2c717d02...1b56d88b\<close>.
\<close>

theorem python_ciphertext_known_answer:
  "python_ciphertext = Inr dart_ciphertext \<and> length dart_ciphertext = 32"
  by (simp add: kat_python_ciphertext) (simp add: dart_ciphertext_def)

text \<open>
  C2, as stated, fails: sealing the known-answer inputs with the fixed IV itself as the
  nonce (no XOR) gives the very ciphertext \<open>2c717d02...1b56d88b\<close>, so it is not true that
  both alternative constructions differ from it.
\<close>

theorem alt_constructions_counterexample:
  "\<not> (alt_ciphertext \<noteq> Inr dart_ciphertext \<and> alt_ciphertext2 \<noteq> Inr dart_ciphertext)"
  by (simp add: kat_alt_ciphertext)

text \<open>
  C2, amended: for the known-answer inputs, sealing with the additional data that omits
  the sequence number gives a 32-byte ciphertext different from \<open>2c717d02...1b56d88b\<close>
  (the same 16 encrypted bytes, another tag), whereas sealing with the fixed IV as the
  nonce gives exactly \<open>2c717d02...1b56d88b\<close>, the sequence number being 0.
\<close>

theorem alt_constructions_amended:
  "alt_ciphertext = Inr dart_ciphertext
   \<and> alt_ciphertext2 \<noteq> Inr dart_ciphertext
   \<and> (\<exists>c. alt_ciphertext2 = Inr c \<and> length c = 32
            \<and> take 16 c = take 16 dart_ciphertext)"
  by (simp add: kat_alt_ciphertext kat_alt_ciphertext2_differs)
     (simp add: kat_alt_ciphertext2 dart_ciphertext_def)

section \<open>The hash functions, the PRF and the PSS encoder\<close>

lemma length_num_to_be_bytes: "length (num_to_be_bytes k n) = k"
  by (simp add: num_to_be_bytes_def length_num_to_le_bytes)

lemma length_sha256_output: "length (sha256_output s) = 32"
  by (induction s rule: sha256_output.induct) (simp add: length_num_to_be_bytes)

lemma length_sha256: "length (sha256 msg) = 32"
  by (simp add: sha256_def length_sha256_output)

lemma length_sha1_output: "length (sha1_output s) = 20"
  by (induction s rule: sha1_output.induct) (simp add: length_num_to_be_bytes)

lemma length_sha1: "length (sha1 msg) = 20"
  by (simp add: sha1_def length_sha1_output)

lemma length_secureHash: "length (secureHash d alg) = digest_size alg"
  by (cases alg) (simp_all add: length_sha1 length_sha256)

lemma length_HMAC: "length (HMAC alg k m) = digest_size alg"
  by (simp add: HMAC_def Let_def length_secureHash)

lemma length_P_hash_loop:
  "length (P_hash_loop n alg secret sd a) = n * digest_size alg"
  by (induction n arbitrary: a) (simp_all add: Let_def length_HMAC)

lemma digest_size_pos: "0 < digest_size alg"
  by (cases alg) simp_all

lemma divceil_covers: "0 < d \<Longrightarrow> n \<le> divceil n d * d"
proof -
  assume d: "0 < d"
  have "n + d - 1 = (n + d - 1) div d * d + (n + d - 1) mod d"
    by simp
  moreover have "(n + d - 1) mod d < d"
    using d by simp
  ultimately show ?thesis
    unfolding divceil_def by linarith
qed

lemma length_PRF: "length (PRF secret lbl sd n alg) = n"
  using divceil_covers [OF digest_size_pos, of n alg]
  by (simp add: PRF_def length_P_hash_loop)

lemma sha256_abc:
  "sha256 (ascii ''abc'') =
     [0xba, 0x78, 0x16, 0xbf, 0x8f, 0x01, 0xcf, 0xea, 0x41, 0x41, 0x40, 0xde, 0x5d, 0xae,
      0x22, 0x23, 0xb0, 0x03, 0x61, 0xa3, 0x96, 0x17, 0x7a, 0x9c, 0xb4, 0x10, 0xff, 0x61,
      0xf2, 0x00, 0x15, 0xad]"
  by code_simp

lemma sha1_abc:
  "sha1 (ascii ''abc'') =
     [0xa9, 0x99, 0x3e, 0x36, 0x47, 0x06, 0x81, 0x6a, 0xba, 0x3e, 0x25, 0x71, 0x78, 0x50,
      0xc2, 0x6c, 0x9c, 0xd0, 0xd8, 0x9d]"
  by code_simp


lemma length_master_secret: "length master_secret = 48"
  by code_simp



lemma EMSA_PSS_encode_trailer:
  "EMSA_PSS_encode g mHash emBits hAlg sLen = Inr EM \<Longrightarrow> last EM = 0xbc"
  by (auto simp: EMSA_PSS_encode_def Let_def split: if_splits sum.splits)

lemma length_MGF1_loop: "length (MGF1_loop n x sd alg) = n * digest_size alg"
  by (induction n arbitrary: x) (simp_all add: length_secureHash)

lemma length_MGF1: "length (MGF1 sd n alg) = n"
  using divceil_covers [OF digest_size_pos, of n alg]
  by (simp add: MGF1_def length_MGF1_loop)

lemma length_clear_top_bits: "length (clear_top_bits bs m) = length bs"
  by (cases bs) simp_all

lemma EMSA_PSS_encode_fake:
  "\<exists>EM. EMSA_PSS_encode fake_get_random_bytes mHash 1023 SHA1 10 = Inr EM
        \<and> length EM = 128 \<and> last EM = 0xbc"
  by (simp add: EMSA_PSS_encode_def Let_def divceil_def fake_get_random_bytes_def salt_def
      length_clear_top_bits length_xor_zip length_MGF1 length_sha1)

lemma kat_m_hash:
  "m_hash = [0xc3, 0xfe, 0xec, 0xcb, 0x90, 0x90, 0x59, 0x24, 0xe5, 0x92, 0x68, 0xaa, 0xf6,
             0x5a, 0x28, 0x74, 0x43, 0xdb, 0x03, 0x8c]"
  by code_simp

lemma kat_em:
  "em = Inr
     [0x48, 0xe1, 0x16, 0x9c, 0x28, 0xca, 0x5c, 0x9e, 0xe0, 0xb7, 0x5d, 0x46, 0xfc, 0x4a,
      0xa3, 0x97, 0x6e, 0x43, 0xeb, 0x99, 0xdd, 0x7a, 0xd1, 0xc7, 0x69, 0xbd, 0xc7, 0xf8,
      0x43, 0x92, 0x41, 0xe9, 0x7e, 0x5f, 0x6b, 0xf8, 0x3c, 0xf6, 0x6c, 0x79, 0x1f, 0x53,
      0xec, 0x51, 0x61, 0x89, 0xff, 0x2a, 0x6a, 0x94, 0xa5, 0xa5, 0x2b, 0x1a, 0x40, 0x94,
      0x1f, 0xf7, 0x15, 0x1a, 0x12, 0x9e, 0xb6, 0xb8, 0x81, 0x32, 0x4f, 0x7b, 0x09, 0x10,
      0x59, 0x10, 0x12, 0x68, 0x47, 0x51, 0xd7, 0xce, 0xb0, 0x4c, 0xf9, 0x1a, 0x59, 0x12,
      0x3d, 0x97, 0xf0, 0xcf, 0xde, 0x97, 0x85, 0xc7, 0x4b, 0x77, 0x85, 0x72, 0x40, 0xd2,
      0x94, 0xa0, 0xe0, 0x39, 0x15, 0xac, 0x7e, 0x63, 0x76, 0x70, 0x82, 0xce, 0x72, 0x97,
      0xc8, 0xd3, 0x26, 0xb5, 0x7c, 0x6e, 0xc1, 0x25, 0x7b, 0x05, 0x66, 0x9f, 0x4f, 0xb9,
      0xed, 0xbc]"
  by code_simp

text \<open>
  C8: \<open>EMSA_PSS_encode\<close> with SHA-1, the 10-byte salt \<open>11223344555432167890\<close> delivered
  by the replaced random-byte source, and 1023 bits, applied to the SHA-1 digest of the
  message of the script, gives one fixed string of 128 bytes, whose last byte is the
  trailer \<open>0xBC\<close>; the last byte is \<open>0xBC\<close> for every message digest.
\<close>

theorem em_fixed_with_trailer:
  "em = Inr
     [0x48, 0xe1, 0x16, 0x9c, 0x28, 0xca, 0x5c, 0x9e, 0xe0, 0xb7, 0x5d, 0x46, 0xfc, 0x4a,
      0xa3, 0x97, 0x6e, 0x43, 0xeb, 0x99, 0xdd, 0x7a, 0xd1, 0xc7, 0x69, 0xbd, 0xc7, 0xf8,
      0x43, 0x92, 0x41, 0xe9, 0x7e, 0x5f, 0x6b, 0xf8, 0x3c, 0xf6, 0x6c, 0x79, 0x1f, 0x53,
      0xec, 0x51, 0x61, 0x89, 0xff, 0x2a, 0x6a, 0x94, 0xa5, 0xa5, 0x2b, 0x1a, 0x40, 0x94,
      0x1f, 0xf7, 0x15, 0x1a, 0x12, 0x9e, 0xb6, 0xb8, 0x81, 0x32, 0x4f, 0x7b, 0x09, 0x10,
      0x59, 0x10, 0x12, 0x68, 0x47, 0x51, 0xd7, 0xce, 0xb0, 0x4c, 0xf9, 0x1a, 0x59, 0x12,
      0x3d, 0x97, 0xf0, 0xcf, 0xde, 0x97, 0x85, 0xc7, 0x4b, 0x77, 0x85, 0x72, 0x40, 0xd2,
      0x94, 0xa0, 0xe0, 0x39, 0x15, 0xac, 0x7e, 0x63, 0x76, 0x70, 0x82, 0xce, 0x72, 0x97,
      0xc8, 0xd3, 0x26, 0xb5, 0x7c, 0x6e, 0xc1, 0x25, 0x7b, 0x05, 0x66, 0x9f, 0x4f, 0xb9,
      0xed, 0xbc]
   \<and> (\<exists>EM. em = Inr EM \<and> length EM = 128 \<and> last EM = 0xbc)
   \<and> (\<forall>mHash. \<exists>EM. EMSA_PSS_encode fake_get_random_bytes mHash 1023 SHA1 10 = Inr EM
                    \<and> length EM = 128 \<and> last EM = 0xbc)"
  using kat_em EMSA_PSS_encode_fake [of m_hash] EMSA_PSS_encode_fake
  by (simp add: em_def)

section \<open>Failures of \<open>open\<close>\<close>

lemma open_short_ciphertext:
  "length key = 32 \<Longrightarrow> length nb = 12 \<Longrightarrow> length c < 16 \<Longrightarrow>
   open key nb c data = Inl AuthenticationError"
  by (simp add: open_def)

lemma open_tag_mismatch:
  assumes "length key = 32" and "length nb = 12" and "length tg = 16"
    and "tg \<noteq> create_tag (poly1305_key_gen key nb) (mac_data data body)"
  shows "open key nb (body @ tg) data = Inl AuthenticationError"
  using assms by (simp add: open_def Let_def)

lemma open_never_returns_unauthenticated:
  assumes "open key nb c data = Inr pt"
  shows "16 \<le> length c
       \<and> drop (length c - 16) c =
           create_tag (poly1305_key_gen key nb) (mac_data data (take (length c - 16) c))"
  using assms by (auto simp: open_def Let_def split: if_splits)

end
